theory Spec2Isabelle
  imports Main "HOL-Library.Word"
begin

section \<open>Data model of \<open>dimos/simulation/stream.py\<close>\<close>

text \<open>
  The module holds one class, \<open>SimulationStream\<close>. Its methods talk to four collaborators
  that live outside the file: the simulator handle, the replicator module (render
  products, annotators, the orchestrator), OpenCV's \<open>cvtColor\<close> and the FFmpeg child
  process behind \<open>subprocess.Popen\<close>. The embedding keeps the class's attributes and the
  part of the collaborators' state the methods act on in one record, threads that record
  through every method, and returns the exception a method raises as a value next to the
  state reached at that moment (effects done before a raise stay done).

  What the collaborators answer is input: the environment of setup (\<open>setup_env\<close>) and the
  environment of each loop iteration (\<open>iter_env\<close>). Wall-clock readings and the
  floating-point durations printed from them are left out; a printed line is recorded by its
  kind only.
\<close>

type_synonym byte = "8 word"

text \<open>The exceptions that can leave a method, by their Python class.\<close>

datatype exn =
    RuntimeError string
  | AttributeError
  | FileNotFoundError
  | AnnotatorRegistryError
  | Cv2Error
  | BrokenPipeError
  | ValueError
  | KeyboardInterrupt

text \<open>
  A numpy array of unsigned bytes with shape \<open>(rows, cols, channels)\<close> and its buffer in
  C order; numpy keeps \<open>length buf = rows * cols * channels\<close>, and a record that breaks
  this stands for no array.
\<close>

record ndarray =
  rows :: nat
  cols :: nat
  channels :: nat
  buf :: "byte list"

definition tobytes :: "ndarray \<Rightarrow> byte list" where
  "tobytes a = buf a"

text \<open>
  The child process and the buffered writer \<open>Popen\<close> puts on its standard input: the
  command line; the writer's buffer size, whether it has been closed, and the bytes it holds
  that have not reached the pipe; whether the encoder's end of the pipe is gone; the chunks
  \<open>stdin.write\<close> has accepted, oldest first; the bytes that have reached the pipe; and
  whether the process has been waited for.
\<close>

record popen =
  args :: "string list"
  buffer_size :: int
  stdin_closed :: bool
  stdin_buffer :: "byte list"
  encoder_gone :: bool
  stdin_data :: "byte list list"
  piped :: "byte list"
  reaped :: bool

text \<open>
  The simulator handle: the prim paths of its active stage (\<open>None\<close> when there is no
  stage) and the number of times \<open>close()\<close> has been invoked on it.
\<close>

record simulator_handle =
  sim_stage :: "string list option"
  close_calls :: nat

datatype log_line =
    LogStart
  | LogStepTook
  | LogFrameTook
  | LogProcessed int
  | LogInterrupt
  | LogCleanupStopping
  | LogCleanupClosing
  | LogCleanupDone

text \<open>
  The instance. \<open>stage\<close>, \<open>render_product\<close>, \<open>proc\<close> and \<open>annotator\<close> are attributes that
  exist only once the setup step that assigns them has run: \<open>None\<close> is the missing
  attribute, so \<open>hasattr(self, 'proc')\<close> is \<open>proc s \<noteq> None\<close>. The last two fields are
  the world the methods act on besides the instance: the steps the orchestrator has been
  asked to make, and standard output.
\<close>

record simulation_stream =
  simulator :: simulator_handle
  width :: int
  height :: int
  fps :: int
  camera_path :: string
  annotator_type :: string
  transport :: string
  rtsp_url :: string
  stage :: "string list option"
  render_product :: "(string \<times> int \<times> int) option"
  proc :: "popen option"
  annotator :: "string option"
  orchestrator_steps :: nat
  stdout :: "log_line list"

definition print_line :: "log_line \<Rightarrow> simulation_stream \<Rightarrow> simulation_stream" where
  "print_line l s = s\<lparr>stdout := stdout s @ [l]\<rparr>"

section \<open>Collaborators\<close>

subsection \<open>Python's \<open>str\<close> on integers\<close>

definition digit_char :: "nat \<Rightarrow> char" where
  "digit_char d = char_of (48 + d)"

fun str_nat :: "nat \<Rightarrow> string" where
  "str_nat n = (if n < 10 then [digit_char n] else str_nat (n div 10) @ [digit_char (n mod 10)])"

declare str_nat.simps [simp del]

definition str_int :: "int \<Rightarrow> string" where
  "str_int i = (if i < 0 then CHR ''-'' # str_nat (nat (- i)) else str_nat (nat i))"

subsection \<open>\<open>cv2.cvtColor(frame, cv2.COLOR_RGBA2BGR)\<close>\<close>

text \<open>
  OpenCV takes the number of source channels from the array: with four it drops the fourth
  and swaps the first and third, with three it swaps the first and third, and it raises
  \<open>cv2.error\<close> on any other channel count and on an empty array. A record whose buffer
  has not the length its shape says is no array, and is refused as well.
\<close>

fun swap_rb4 :: "byte list \<Rightarrow> byte list" where
  "swap_rb4 (r # g # b # a # xs) = b # g # r # swap_rb4 xs"
| "swap_rb4 _ = []"

fun swap_rb3 :: "byte list \<Rightarrow> byte list" where
  "swap_rb3 (r # g # b # xs) = b # g # r # swap_rb3 xs"
| "swap_rb3 _ = []"

definition cvtColor_RGBA2BGR :: "ndarray \<Rightarrow> exn + ndarray" where
  "cvtColor_RGBA2BGR a =
     (if rows a = 0 \<or> cols a = 0 then Inl Cv2Error
      else if length (buf a) \<noteq> rows a * cols a * channels a then Inl Cv2Error
      else if channels a = 4 then
        Inr \<lparr>rows = rows a, cols = cols a, channels = 3, buf = swap_rb4 (buf a)\<rparr>
      else if channels a = 3 then
        Inr \<lparr>rows = rows a, cols = cols a, channels = 3, buf = swap_rb3 (buf a)\<rparr>
      else Inl Cv2Error)"

subsection \<open>The child process and the simulator\<close>

text \<open>
  The writer is CPython's \<open>BufferedWriter\<close>. Handing bytes to the pipe fails with
  \<open>BrokenPipeError\<close> once the encoder's end is gone, and then leaves the writer as it was.
\<close>

definition raw_write :: "byte list \<Rightarrow> popen \<Rightarrow> exn option \<times> popen" where
  "raw_write bs p =
     (if encoder_gone p then (Some BrokenPipeError, p) else (None, p\<lparr>piped := piped p @ bs\<rparr>))"

text \<open>Flushing hands the buffered bytes to the pipe; with nothing buffered it does nothing.\<close>

definition flush_buffer :: "popen \<Rightarrow> exn option \<times> popen" where
  "flush_buffer p =
     (if stdin_buffer p = [] then (None, p)
      else case raw_write (stdin_buffer p) p of
             (Some x, p') \<Rightarrow> (Some x, p')
           | (None, p') \<Rightarrow> (None, p'\<lparr>stdin_buffer := []\<rparr>))"

text \<open>
  \<open>stdin.write(bs)\<close>: on a closed writer \<open>ValueError\<close>; bytes that fit the free space of
  the buffer are only copied there; otherwise the buffer is flushed and the bytes are handed
  to the pipe at once.
\<close>

definition stdin_write :: "byte list \<Rightarrow> popen \<Rightarrow> exn option \<times> popen" where
  "stdin_write bs p =
     (if stdin_closed p then (Some ValueError, p)
      else if int (length bs) \<le> buffer_size p - int (length (stdin_buffer p))
      then (None, p\<lparr>stdin_buffer := stdin_buffer p @ bs, stdin_data := stdin_data p @ [bs]\<rparr>)
      else case flush_buffer p of
             (Some x, p') \<Rightarrow> (Some x, p')
           | (None, p') \<Rightarrow>
               (case raw_write bs p' of
                  (Some x, p'') \<Rightarrow> (Some x, p'')
                | (None, p'') \<Rightarrow> (None, p''\<lparr>stdin_data := stdin_data p'' @ [bs]\<rparr>)))"

definition stdin_flush :: "popen \<Rightarrow> exn option \<times> popen" where
  "stdin_flush p = (if stdin_closed p then (Some ValueError, p) else flush_buffer p)"

text \<open>
  \<open>stdin.close()\<close> on a writer that is closed already does nothing. Otherwise it flushes
  first; when the flush fails the writer is closed all the same and the exception is raised.
\<close>

definition stdin_close :: "popen \<Rightarrow> exn option \<times> popen" where
  "stdin_close p =
     (if stdin_closed p then (None, p)
      else case flush_buffer p of
             (Some x, p') \<Rightarrow> (Some x, p'\<lparr>stdin_closed := True\<rparr>)
           | (None, p') \<Rightarrow> (None, p'\<lparr>stdin_closed := True\<rparr>))"

text \<open>
  \<open>wait()\<close> on a process that has been waited for returns the stored return code at once.
  \<open>wait()\<close> is taken to return (the encoder exits once its input is closed), and
  neither it nor the simulator's \<open>close()\<close> is taken to raise; what the simulator does on
  \<open>close()\<close> is outside the file, so the handle only counts the calls.
\<close>

definition wait :: "popen \<Rightarrow> popen" where
  "wait p = (if reaped p then p else p\<lparr>reaped := True\<rparr>)"

definition sim_close :: "simulator_handle \<Rightarrow> simulator_handle" where
  "sim_close sim = sim\<lparr>close_calls := close_calls sim + 1\<rparr>"

section \<open>Setup\<close>

text \<open>
  What setup meets outside the instance: how a scene path resolves to an absolute path, the
  stage the simulator reports after \<open>open_stage\<close> on that path, whether the \<open>ffmpeg\<close>
  executable can be started, the buffer size \<open>Popen\<close> gives the writer on the child's
  standard input (the pipe's block size or \<open>io.DEFAULT_BUFFER_SIZE\<close>, which depends on the
  platform), and the annotator names the registry knows.
\<close>

record setup_env =
  resolve :: "string \<Rightarrow> string"
  open_stage :: "string \<Rightarrow> string list option"
  ffmpeg_available :: bool
  pipe_buffer_size :: int
  registry :: "string list"

definition load_stage :: "setup_env \<Rightarrow> string \<Rightarrow> simulation_stream \<Rightarrow> exn option \<times> simulation_stream" where
  "load_stage env usd_path s =
     (let abs_path = resolve env usd_path;
          s1 = s\<lparr>simulator := (simulator s)\<lparr>sim_stage := open_stage env abs_path\<rparr>\<rparr>;
          s2 = s1\<lparr>stage := sim_stage (simulator s1)\<rparr>
      in if stage s2 = None
         then (Some (RuntimeError (''Failed to load stage: '' @ abs_path)), s2)
         else (None, s2))"

definition setup_camera :: "simulation_stream \<Rightarrow> exn option \<times> simulation_stream" where
  "setup_camera s =
     (let s1 = s\<lparr>stage := sim_stage (simulator s)\<rparr>
      in case stage s1 of
           None \<Rightarrow> (Some AttributeError, s1)
         | Some prims \<Rightarrow>
             if camera_path s1 \<notin> set prims
             then (Some (RuntimeError (''Failed to find camera at path: '' @ camera_path s1)), s1)
             else (None, s1\<lparr>render_product := Some (camera_path s1, width s1, height s1)\<rparr>))"

definition ffmpeg_command :: "simulation_stream \<Rightarrow> string list" where
  "ffmpeg_command s =
     [''ffmpeg'',
      ''-y'',
      ''-f'', ''rawvideo'',
      ''-vcodec'', ''rawvideo'',
      ''-pix_fmt'', ''bgr24'',
      ''-s'', str_int (width s) @ ''x'' @ str_int (height s),
      ''-r'', str_int (fps s),
      ''-i'', ''-'',
      ''-an'',
      ''-c:v'', ''h264_nvenc'',
      ''-preset'', ''fast'',
      ''-f'', ''rtsp'',
      ''-rtsp_transport'', transport s,
      rtsp_url s]"

definition setup_ffmpeg :: "setup_env \<Rightarrow> simulation_stream \<Rightarrow> exn option \<times> simulation_stream" where
  "setup_ffmpeg env s =
     (let command = ffmpeg_command s
      in if ffmpeg_available env
         then (None, s\<lparr>proc := Some \<lparr>args = command, buffer_size = pipe_buffer_size env,
                                      stdin_closed = False, stdin_buffer = [],
                                      encoder_gone = False, stdin_data = [], piped = [],
                                      reaped = False\<rparr>\<rparr>)
         else (Some FileNotFoundError, s))"

definition setup_annotator :: "setup_env \<Rightarrow> simulation_stream \<Rightarrow> exn option \<times> simulation_stream" where
  "setup_annotator env s =
     (if annotator_type s \<in> set (registry env)
      then (None, s\<lparr>annotator := Some (annotator_type s)\<rparr>)
      else (Some AnnotatorRegistryError, s))"

text \<open>Run the next step unless the one before raised.\<close>

definition and_then ::
  "exn option \<times> simulation_stream \<Rightarrow> (simulation_stream \<Rightarrow> exn option \<times> simulation_stream)
     \<Rightarrow> exn option \<times> simulation_stream" where
  "and_then r f = (case r of (None, s) \<Rightarrow> f s | (Some x, s) \<Rightarrow> (Some x, s))"

text \<open>
  \<open>__init__\<close>. The state returned with an exception is the world at the moment the
  exception leaves the constructor. \<open>world_steps\<close> and \<open>out\<close> are the orchestrator's step
  count and standard output when the constructor is entered.
\<close>

definition init ::
  "setup_env \<Rightarrow> nat \<Rightarrow> log_line list \<Rightarrow> simulator_handle \<Rightarrow> int \<Rightarrow> int \<Rightarrow> int \<Rightarrow> string \<Rightarrow> string
     \<Rightarrow> string \<Rightarrow> string \<Rightarrow> string option \<Rightarrow> exn option \<times> simulation_stream" where
  "init env world_steps out sim w h f cam ann tr url usd_path =
     (let s = \<lparr>simulator = sim, width = w, height = h, fps = f, camera_path = cam,
               annotator_type = ann, transport = tr, rtsp_url = url,
               stage = None, render_product = None, proc = None, annotator = None,
               orchestrator_steps = world_steps, stdout = out\<rparr>;
          r0 = (case usd_path of
                  None \<Rightarrow> (None, s)
                | Some p \<Rightarrow> if p = [] then (None, s) else load_stage env p s)
      in and_then (and_then (and_then r0 setup_camera) (setup_ffmpeg env)) (setup_annotator env))"

section \<open>Cleanup\<close>

text \<open>
  \<open>cleanup\<close> has no handler of its own: when \<open>self.proc.stdin.close()\<close> raises, the
  exception leaves \<open>cleanup\<close> at once, and \<open>self.proc.wait()\<close>,
  \<open>self.simulator.close()\<close> and the last two prints are not reached.
\<close>

definition cleanup :: "simulation_stream \<Rightarrow> exn option \<times> simulation_stream" where
  "cleanup s =
     (let s1 = print_line LogCleanupStopping s;
          r = (case proc s1 of
                 None \<Rightarrow> (None, s1)
               | Some p \<Rightarrow>
                   (case stdin_close p of
                      (Some x, p') \<Rightarrow> (Some x, s1\<lparr>proc := Some p'\<rparr>)
                    | (None, p') \<Rightarrow> (None, s1\<lparr>proc := Some (wait p')\<rparr>)))
      in case r of
           (Some x, s2) \<Rightarrow> (Some x, s2)
         | (None, s2) \<Rightarrow>
             (let s3 = print_line LogCleanupClosing s2;
                  s4 = s3\<lparr>simulator := sim_close (simulator s3)\<rparr>
              in (None, print_line LogCleanupDone s4)))"

section \<open>The streaming loop\<close>

text \<open>
  What one iteration meets: the array \<open>annotator.get_data()\<close> returns, whether the
  encoder's end of the pipe is gone by the time the iteration writes (so that the write, or
  the flush after it, fails), and whether a keyboard interrupt is delivered during the
  iteration and where.
\<close>

datatype interrupt_point = BeforeStep | BeforeWrite | AfterFlush

record iter_env =
  data :: ndarray
  write_fails :: bool
  interrupt :: "interrupt_point option"

text \<open>
  \<open>self.proc.stdin.write(frame.tobytes())\<close> followed by \<open>self.proc.stdin.flush()\<close>.
\<close>

definition write_frame :: "bool \<Rightarrow> byte list \<Rightarrow> popen \<Rightarrow> exn option \<times> popen" where
  "write_frame gone bs p0 =
     (let p = p0\<lparr>encoder_gone := encoder_gone p0 \<or> gone\<rparr>
      in case stdin_write bs p of
           (Some x, p') \<Rightarrow> (Some x, p')
         | (None, p') \<Rightarrow> stdin_flush p')"

text \<open>The body of \<open>while True\<close>, with the local \<open>frame_count\<close> passed along.\<close>

definition iteration ::
  "iter_env \<Rightarrow> int \<Rightarrow> simulation_stream \<Rightarrow> exn option \<times> int \<times> simulation_stream" where
  "iteration e frame_count s =
     (if interrupt e = Some BeforeStep then (Some KeyboardInterrupt, frame_count, s)
      else
        let s1 = print_line LogStepTook (s\<lparr>orchestrator_steps := orchestrator_steps s + 1\<rparr>)
        in case annotator s1 of
             None \<Rightarrow> (Some AttributeError, frame_count, s1)
           | Some a \<Rightarrow>
              (case cvtColor_RGBA2BGR (data e) of
                 Inl x \<Rightarrow> (Some x, frame_count, s1)
               | Inr frame \<Rightarrow>
                  if interrupt e = Some BeforeWrite then (Some KeyboardInterrupt, frame_count, s1)
                  else
                    (case proc s1 of
                       None \<Rightarrow> (Some AttributeError, frame_count, s1)
                     | Some p \<Rightarrow>
                        (case write_frame (write_fails e) (tobytes frame) p of
                           (Some x, p') \<Rightarrow> (Some x, frame_count, s1\<lparr>proc := Some p'\<rparr>)
                         | (None, p') \<Rightarrow>
                             let s2 = s1\<lparr>proc := Some p'\<rparr>
                             in if interrupt e = Some AfterFlush
                                then (Some KeyboardInterrupt, frame_count, s2)
                                else
                                  let s3 = print_line LogFrameTook s2;
                                      frame_count' = frame_count + 1
                                  in if frame_count' mod 100 = 0
                                     then (None, frame_count', print_line (LogProcessed frame_count') s3)
                                     else (None, frame_count', s3)))))"

text \<open>
  \<open>while True\<close> has no exit of its own: it ends only when an iteration raises. The loop
  is run against a finite script of iteration environments; the result \<open>None\<close> in the
  first component says that the script is used up and the loop is still running.
\<close>

fun loop :: "iter_env list \<Rightarrow> int \<Rightarrow> simulation_stream \<Rightarrow> exn option \<times> int \<times> simulation_stream" where
  "loop [] frame_count s = (None, frame_count, s)"
| "loop (e # es) frame_count s =
     (case iteration e frame_count s of
        (Some x, c, s') \<Rightarrow> (Some x, c, s')
      | (None, c, s') \<Rightarrow> loop es c s')"

text \<open>The body of the \<open>try\<close> block: the first print, \<open>frame_count = 0\<close> and the loop.\<close>

definition try_body :: "iter_env list \<Rightarrow> simulation_stream \<Rightarrow> exn option \<times> int \<times> simulation_stream" where
  "try_body es s = loop es 0 (print_line LogStart s)"

text \<open>
  The \<open>finally\<close> clause: cleanup runs, and an exception it raises takes the place of
  whatever was on its way to the caller.
\<close>

datatype outcome = Returned | Raised exn

definition finally_cleanup :: "outcome \<Rightarrow> simulation_stream \<Rightarrow> outcome option \<times> simulation_stream" where
  "finally_cleanup pending s =
     (case cleanup s of
        (None, s') \<Rightarrow> (Some pending, s')
      | (Some y, s') \<Rightarrow> (Some (Raised y), s'))"

text \<open>
  \<open>stream\<close>: the \<open>try\<close> block, the handler for \<open>KeyboardInterrupt\<close> and the
  \<open>finally\<close> clause. The first component is \<open>None\<close> while the call has not come back
  (the script is used up inside the loop), otherwise how it came back.
\<close>

definition stream :: "iter_env list \<Rightarrow> simulation_stream \<Rightarrow> outcome option \<times> simulation_stream" where
  "stream es s =
     (case try_body es s of
        (None, c, s') \<Rightarrow> (None, s')
      | (Some KeyboardInterrupt, c, s') \<Rightarrow> finally_cleanup Returned (print_line LogInterrupt s')
      | (Some x, c, s') \<Rightarrow> finally_cleanup (Raised x) s')"

section \<open>Observations used to state the properties\<close>

text \<open>The seven configuration attributes assigned at the top of \<open>__init__\<close>.\<close>

definition config_of :: "simulation_stream \<Rightarrow> int \<times> int \<times> int \<times> string \<times> string \<times> string \<times> string" where
  "config_of s = (width s, height s, fps s, camera_path s, annotator_type s, transport s, rtsp_url s)"

text \<open>The chunks written to the encoder's input so far (none when no encoder was launched).\<close>

definition frames_written :: "simulation_stream \<Rightarrow> byte list list" where
  "frames_written s = (case proc s of None \<Rightarrow> [] | Some p \<Rightarrow> stdin_data p)"

text \<open>The throughput lines on standard output.\<close>

definition reports :: "simulation_stream \<Rightarrow> log_line list" where
  "reports s = filter (\<lambda>l. case l of LogProcessed n \<Rightarrow> True | _ \<Rightarrow> False) (stdout s)"

text \<open>Everything about the child process except the data it has been fed.\<close>

definition proc_status :: "popen \<Rightarrow> string list \<times> bool \<times> bool" where
  "proc_status p = (args p, stdin_closed p, reaped p)"

text \<open>The bytes an iteration hands to the pipe for the array it fetched.\<close>

definition bgr_bytes :: "iter_env \<Rightarrow> byte list" where
  "bgr_bytes e = (case cvtColor_RGBA2BGR (data e) of Inl x \<Rightarrow> [] | Inr frame \<Rightarrow> tobytes frame)"


text \<open>
  The stage the simulator reports when \<open>_setup_camera\<close> asks for it: the one a scene
  path loaded, or the one the simulator had.
\<close>

definition active_stage :: "setup_env \<Rightarrow> simulator_handle \<Rightarrow> string option \<Rightarrow> string list option" where
  "active_stage env sim usd_path =
     (case usd_path of
        None \<Rightarrow> sim_stage sim
      | Some p \<Rightarrow> if p = [] then sim_stage sim else open_stage env (resolve env p))"

text \<open>Whether cleanup has left the encoder (if one was launched) closed and waited for.\<close>

definition encoder_released :: "simulation_stream \<Rightarrow> bool" where
  "encoder_released s = (case proc s of None \<Rightarrow> True | Some p \<Rightarrow> stdin_closed p \<and> reaped p)"


subsection \<open>Concrete inputs\<close>

definition demo_env :: setup_env where
  "demo_env = \<lparr>resolve = (\<lambda>p. p), open_stage = (\<lambda>p. None), ffmpeg_available = True,
               pipe_buffer_size = 8192,
               registry = [''rgb'', ''normals'', ''bounding_box_3d'', ''motion_vectors'']\<rparr>"

definition demo_sim :: simulator_handle where
  "demo_sim = \<lparr>sim_stage = Some [''/World/cam''], close_calls = 0\<rparr>"

definition demo_init :: "string \<Rightarrow> string \<Rightarrow> exn option \<times> simulation_stream" where
  "demo_init cam ann =
     init demo_env 0 [] demo_sim 2 1 60 cam ann ''tcp'' ''rtsp://mediamtx:8554/stream'' None"

definition demo_stream :: simulation_stream where
  "demo_stream = snd (demo_init ''/World/cam'' ''rgb'')"

definition demo_frame :: ndarray where
  "demo_frame = \<lparr>rows = 1, cols = 2, channels = 4, buf = [10, 20, 30, 255, 40, 50, 60, 255]\<rparr>"

definition good_iter :: iter_env where
  "good_iter = \<lparr>data = demo_frame, write_fails = False, interrupt = None\<rparr>"

definition broken_pipe_iter :: iter_env where
  "broken_pipe_iter = \<lparr>data = demo_frame, write_fails = True, interrupt = None\<rparr>"


section \<open>Facts about the writer\<close>

lemmas writer_defs = write_frame_def stdin_write_def stdin_flush_def flush_buffer_def
  raw_write_def stdin_close_def Let_def

lemma write_frame_status:
  assumes "write_frame g bs p = (x, p')"
  shows "proc_status p' = proc_status p" and "buffer_size p' = buffer_size p"
  using assms
  by (auto simp: writer_defs proc_status_def split: if_splits prod.splits option.splits)

lemma write_frame_ok:
  assumes "write_frame g bs p = (None, p')"
  shows "stdin_data p' = stdin_data p @ [bs]"
    and "\<not> stdin_closed p"
    and "bs \<noteq> [] \<Longrightarrow> \<not> g \<and> \<not> encoder_gone p \<and> \<not> encoder_gone p' \<and> stdin_buffer p' = [] \<and>
           piped p' = piped p @ stdin_buffer p @ bs"
  using assms
  by (auto simp: writer_defs split: if_splits prod.splits option.splits)




lemma write_frame_keeps_encoder:
  assumes "write_frame g bs p = (x, p')" and "bs \<noteq> []" and "x = None"
  shows "encoder_gone p' = encoder_gone p"
  using write_frame_ok(3) [of g bs p p'] assms by simp

lemma stdin_close_status:
  assumes "stdin_close p = (x, p')"
  shows "stdin_closed p'" and "args p' = args p" and "reaped p' = reaped p"
    and "stdin_data p' = stdin_data p" and "buffer_size p' = buffer_size p"
  using assms by (auto simp: writer_defs split: if_splits prod.splits option.splits)

lemma stdin_close_alive:
  assumes "\<not> encoder_gone p \<or> stdin_buffer p = [] \<or> stdin_closed p"
  shows "fst (stdin_close p) = None"
  using assms by (auto simp: writer_defs split: if_splits prod.splits option.splits)

lemma stdin_close_again:
  assumes "stdin_closed p"
  shows "stdin_close p = (None, p)"
  using assms by (simp add: stdin_close_def)

lemma wait_status:
  "reaped (wait p)" "stdin_closed (wait p) = stdin_closed p" "args (wait p) = args p"
  "stdin_data (wait p) = stdin_data p" "reaped p \<Longrightarrow> wait p = p"
  by (auto simp: wait_def)

subsection \<open>The conversion\<close>

lemma length_swap_rb4: "length (swap_rb4 xs) = 3 * (length xs div 4)"
proof (induction xs rule: swap_rb4.induct)
  case (1 r g b a xs)
  have "(4 + length xs) div 4 = Suc (length xs div 4)" by presburger
  with 1 show ?case by simp
qed simp_all

lemma length_swap_rb3: "length (swap_rb3 xs) = 3 * (length xs div 3)"
proof (induction xs rule: swap_rb3.induct)
  case (1 r g b xs)
  have "(3 + length xs) div 3 = Suc (length xs div 3)" by presburger
  with 1 show ?case by simp
qed simp_all

lemma converted_size:
  assumes "cvtColor_RGBA2BGR a = Inr fr"
  shows "length (tobytes fr) = rows a * cols a * 3" and "tobytes fr \<noteq> []"
proof -
  from assms have shape: "rows a \<noteq> 0" "cols a \<noteq> 0"
    "length (buf a) = rows a * cols a * channels a"
    by (auto simp: cvtColor_RGBA2BGR_def split: if_splits)
  from assms shape show len: "length (tobytes fr) = rows a * cols a * 3"
    by (auto simp: cvtColor_RGBA2BGR_def tobytes_def length_swap_rb4 length_swap_rb3
        split: if_splits)
  from shape have "rows a * cols a * 3 \<noteq> 0" by simp
  with len show "tobytes fr \<noteq> []" by auto
qed

lemma swap_rb4_nth:
  "i < length xs div 4 \<Longrightarrow>
     swap_rb4 xs ! (3 * i) = xs ! (4 * i + 2) \<and>
     swap_rb4 xs ! (3 * i + 1) = xs ! (4 * i + 1) \<and>
     swap_rb4 xs ! (3 * i + 2) = xs ! (4 * i)"
proof (induction xs arbitrary: i rule: swap_rb4.induct)
  case (1 r g b a xs)
  show ?case
  proof (cases i)
    case 0
    then show ?thesis by simp
  next
    case (Suc j)
    with "1.prems" have "j < length xs div 4" by simp
    from "1.IH" [OF this] Suc show ?thesis by simp
  qed
qed auto


section \<open>Facts about one iteration, the loop and cleanup\<close>

lemma iteration_ok:
  assumes "iteration e c s = (None, c', s')"
  shows "c' = c + 1"
    and "interrupt e = None"
    and "\<exists>p p' frame. proc s = Some p \<and> cvtColor_RGBA2BGR (data e) = Inr frame \<and>
           write_frame (write_fails e) (tobytes frame) p = (None, p') \<and> proc s' = Some p'"
    and "orchestrator_steps s' = orchestrator_steps s + 1"
    and "annotator s \<noteq> None"
    and "stdout s' = stdout s @ [LogStepTook, LogFrameTook] @ (if (c + 1) mod 100 = 0 then [LogProcessed (c + 1)] else [])"
proof -
  show "interrupt e = None"
  proof (cases "interrupt e")
    case None
    then show ?thesis .
  next
    case (Some pt)
    with assms show ?thesis
      by (cases pt)
        (auto simp: iteration_def Let_def split: option.splits sum.splits if_splits prod.splits)
  qed
qed (use assms in \<open>auto simp: iteration_def Let_def print_line_def
      split: option.splits sum.splits if_splits prod.splits\<close>)

lemma iteration_ok_env:
  assumes "iteration e c s = (None, c', s')"
  shows "\<not> write_fails e"
proof -
  from iteration_ok(3) [OF assms] obtain p p' frame
    where "cvtColor_RGBA2BGR (data e) = Inr frame"
      and "write_frame (write_fails e) (tobytes frame) p = (None, p')"
    by blast
  with write_frame_ok(3) converted_size(2) show ?thesis by blast
qed

lemma iteration_frame:
  assumes "iteration e c s = (x, c', s')"
  shows "simulator s' = simulator s"
    and "config_of s' = config_of s"
    and "annotator s' = annotator s"
    and "map_option proc_status (proc s') = map_option proc_status (proc s)"
  using assms
  by (auto simp: iteration_def Let_def print_line_def config_of_def
      split: option.splits sum.splits if_splits prod.splits dest: write_frame_status(1))


lemma loop_frame:
  assumes "loop es c s = (x, c', s')"
  shows "simulator s' = simulator s \<and> config_of s' = config_of s \<and> annotator s' = annotator s
    \<and> map_option proc_status (proc s') = map_option proc_status (proc s)"
  using assms
proof (induction es arbitrary: c s)
  case Nil
  then show ?case by simp
next
  case (Cons e es)
  obtain y c1 s1 where it: "iteration e c s = (y, c1, s1)"
    by (cases "iteration e c s") auto
  note fr = iteration_frame [OF it]
  show ?case
  proof (cases y)
    case None
    with Cons.prems it have "loop es c1 s1 = (x, c', s')" by simp
    from Cons.IH [OF this] fr show ?thesis by simp
  next
    case (Some z)
    with Cons.prems it have "s' = s1" by simp
    with fr show ?thesis by simp
  qed
qed


lemma cleanup_frame:
  assumes "cleanup s = (x, s')"
  shows "config_of s' = config_of s" and "annotator s' = annotator s"
    and "orchestrator_steps s' = orchestrator_steps s"
    and "map_option args (proc s') = map_option args (proc s)"
    and "(proc s' = None) = (proc s = None)"
  using assms
  by (auto simp: cleanup_def Let_def print_line_def config_of_def wait_status
      split: option.splits prod.splits dest: stdin_close_status(2))

lemma cleanup_ok:
  assumes "cleanup s = (None, s')"
  shows "simulator s' = sim_close (simulator s)"
    and "encoder_released s'"
    and "stdout s' = stdout s @ [LogCleanupStopping, LogCleanupClosing, LogCleanupDone]"
proof -
  show "simulator s' = sim_close (simulator s)"
    and "stdout s' = stdout s @ [LogCleanupStopping, LogCleanupClosing, LogCleanupDone]"
    using assms
    by (auto simp: cleanup_def Let_def print_line_def split: option.splits prod.splits)
  show "encoder_released s'"
  proof (cases "proc s")
    case None
    with assms show ?thesis
      by (auto simp: cleanup_def Let_def print_line_def encoder_released_def)
  next
    case (Some p)
    obtain x p' where cl: "stdin_close p = (x, p')"
      by (cases "stdin_close p") auto
    from stdin_close_status(1) [OF cl] have "stdin_closed (wait p')" "reaped (wait p')"
      by (simp_all add: wait_status)
    with assms Some cl show ?thesis
      by (cases x) (auto simp: cleanup_def Let_def print_line_def encoder_released_def)
  qed
qed

lemma cleanup_aborted:
  assumes "cleanup s = (Some x, s')"
  shows "simulator s' = simulator s" and "x = BrokenPipeError"
    and "stdout s' = stdout s @ [LogCleanupStopping]"
    and "\<exists>p p'. proc s = Some p \<and> proc s' = Some p' \<and> reaped p' = reaped p"
  using assms
  by (auto simp: cleanup_def Let_def print_line_def writer_defs
      split: option.splits prod.splits if_splits)

lemma cleanup_completes:
  assumes "proc s = None \<or> (\<exists>p. proc s = Some p \<and> (\<not> encoder_gone p \<or> stdin_buffer p = [] \<or> stdin_closed p))"
  shows "fst (cleanup s) = None"
proof (cases "proc s")
  case None
  then show ?thesis
    by (simp add: cleanup_def Let_def print_line_def)
next
  case (Some p)
  with assms have "fst (stdin_close p) = None"
    by (intro stdin_close_alive) auto
  then obtain p' where "stdin_close p = (None, p')"
    by (cases "stdin_close p") auto
  with Some show ?thesis
    by (simp add: cleanup_def Let_def print_line_def)
qed

lemma cleanup_again:
  assumes "cleanup s = (None, s1)"
  shows "fst (cleanup s1) = None"
    and "proc (snd (cleanup s1)) = proc s1"
    and "simulator (snd (cleanup s1)) = sim_close (simulator s1)"
proof -
  from cleanup_ok(2) [OF assms] have rel: "encoder_released s1" .
  show "fst (cleanup s1) = None"
    using rel by (intro cleanup_completes) (auto simp: encoder_released_def split: option.splits)
  then obtain s2 where eq: "cleanup s1 = (None, s2)"
    by (cases "cleanup s1") auto
  from cleanup_ok(1) [OF eq] eq show "simulator (snd (cleanup s1)) = sim_close (simulator s1)"
    by simp
  from rel eq show "proc (snd (cleanup s1)) = proc s1"
    by (auto simp: cleanup_def Let_def print_line_def encoder_released_def stdin_close_again
        wait_status split: option.splits prod.splits)
qed

lemma frames_written_iteration:
  assumes "iteration e c s = (None, c', s')"
  shows "frames_written s' = frames_written s @ [bgr_bytes e]"
proof -
  from iteration_ok(3) [OF assms] obtain p p' frame
    where p: "proc s = Some p" "proc s' = Some p'"
      and fr: "cvtColor_RGBA2BGR (data e) = Inr frame"
      and w: "write_frame (write_fails e) (tobytes frame) p = (None, p')"
    by blast
  from write_frame_ok(1) [OF w] p fr show ?thesis
    by (simp add: frames_written_def bgr_bytes_def)
qed

lemma loop_ok:
  assumes "loop es c s = (None, c', s')"
  shows "c' = c + int (length es)
    \<and> orchestrator_steps s' = orchestrator_steps s + length es
    \<and> frames_written s' = frames_written s @ map bgr_bytes es
    \<and> (\<forall>e \<in> set es. interrupt e = None \<and> \<not> write_fails e)"
  using assms
proof (induction es arbitrary: c s)
  case Nil
  then show ?case by simp
next
  case (Cons e es)
  obtain y c1 s1 where it: "iteration e c s = (y, c1, s1)"
    by (cases "iteration e c s") auto
  with Cons.prems have y: "y = None" and rest: "loop es c1 s1 = (None, c', s')"
    by (auto split: option.splits)
  from it y have ok: "iteration e c s = (None, c1, s1)" by simp
  from Cons.IH [OF rest] iteration_ok(1,2,4) [OF ok] iteration_ok_env [OF ok]
    frames_written_iteration [OF ok]
  show ?case by simp
qed


lemma iteration_reports:
  assumes "iteration e c s = (x, c', s')"
  shows "(c' = c \<and> reports s' = reports s) \<or>
         (c' = c + 1 \<and> reports s' = reports s @ (if (c + 1) mod 100 = 0 then [LogProcessed (c + 1)] else []))"
  using assms
  by (auto simp: iteration_def Let_def print_line_def reports_def
      split: option.splits sum.splits if_splits prod.splits)

lemma loop_reports:
  assumes "loop es c s = (x, c', s')"
  shows "c \<le> c' \<and> reports s' = reports s @ map LogProcessed (filter (\<lambda>k. k mod 100 = 0) [c + 1..c'])"
  using assms
proof (induction es arbitrary: c s)
  case Nil
  then show ?case by simp
next
  case (Cons e es)
  obtain y c1 s1 where it: "iteration e c s = (y, c1, s1)"
    by (cases "iteration e c s") auto
  from iteration_reports [OF it] have c1: "c1 = c \<or> c1 = c + 1" by auto
  show ?case
  proof (cases y)
    case (Some z)
    with Cons.prems it have eq: "c' = c1" "s' = s1" by auto
    from it Some have "c1 = c"
      by (auto simp: iteration_def Let_def
          split: option.splits sum.splits if_splits prod.splits)
    with iteration_reports [OF it] eq show ?thesis by auto
  next
    case None
    with Cons.prems it have rest: "loop es c1 s1 = (x, c', s')" by simp
    from it None have c1: "c1 = c + 1" using iteration_ok(1) by blast
    from Cons.IH [OF rest] have le: "c1 \<le> c'"
      and rep: "reports s' = reports s1 @ map LogProcessed (filter (\<lambda>k. k mod 100 = 0) [c1 + 1..c'])"
      by auto
    from iteration_reports [OF it] c1
    have rep1: "reports s1 = reports s @ (if (c + 1) mod 100 = 0 then [LogProcessed (c + 1)] else [])"
      by auto
    from le c1 have "c + 1 \<le> c'" by simp
    then have "[c + 1..c'] = (c + 1) # [c + 1 + 1..c']"
      by (rule upto_rec1)
    with c1 have "filter (\<lambda>k. k mod 100 = 0) [c + 1..c'] =
        (if (c + 1) mod 100 = 0 then [c + 1] else []) @ filter (\<lambda>k. k mod 100 = 0) [c1 + 1..c']"
      by simp
    with rep rep1 have "reports s' = reports s @ map LogProcessed (filter (\<lambda>k. k mod 100 = 0) [c + 1..c'])"
      by simp
    with le c1 show ?thesis by simp
  qed
qed

lemma multiple_of_100_int: "(int n + 1) mod 100 = 0 \<longleftrightarrow> Suc n mod 100 = 0"
proof -
  have "int (Suc n mod 100) = (int n + 1) mod 100"
    by (simp add: zmod_int add.commute)
  then show ?thesis
    by (metis of_nat_eq_0_iff)
qed

lemma count_multiples: "length (filter (\<lambda>k. k mod 100 = 0) [1..int n]) = n div 100"
proof (induction n)
  case 0
  show ?case by simp
next
  case (Suc n)
  have "(1::int) \<le> int n + 1" by simp
  then have "[1..int n + 1] = [1..int n + 1 - 1] @ [int n + 1]"
    by (rule upto_rec2)
  then have split: "[1..int (Suc n)] = [1..int n] @ [int n + 1]"
    by (simp add: add.commute)
  show ?case
    unfolding split
    by (simp only: filter_append filter.simps length_append Suc.IH multiple_of_100_int div_Suc
        if_distrib [of length] list.size split: if_splits) simp
qed

section \<open>Facts about setup and about leaving the loop\<close>

lemmas setup_defs = init_def and_then_def load_stage_def setup_camera_def setup_ffmpeg_def
  setup_annotator_def Let_def

lemma init_config:
  "config_of (snd (init env st out sim w h f cam ann tr url usd)) = (w, h, f, cam, ann, tr, url)"
  by (simp add: setup_defs config_of_def split: option.splits)

lemma init_runs_no_cleanup:
  "close_calls (simulator (snd (init env st out sim w h f cam ann tr url usd))) = close_calls sim"
  "stdout (snd (init env st out sim w h f cam ann tr url usd)) = out"
  "map_option (\<lambda>p. (stdin_closed p, reaped p)) (proc (snd (init env st out sim w h f cam ann tr url usd)))
     \<in> {None, Some (False, False)}"
  by (simp_all add: setup_defs split: option.splits)

lemma init_ok:
  assumes "fst (init env st out sim w h f cam ann tr url usd) = None"
  shows "map_option args (proc (snd (init env st out sim w h f cam ann tr url usd))) =
           Some [''ffmpeg'', ''-y'', ''-f'', ''rawvideo'', ''-vcodec'', ''rawvideo'',
                 ''-pix_fmt'', ''bgr24'', ''-s'', str_int w @ ''x'' @ str_int h,
                 ''-r'', str_int f, ''-i'', ''-'', ''-an'', ''-c:v'', ''h264_nvenc'',
                 ''-preset'', ''fast'', ''-f'', ''rtsp'', ''-rtsp_transport'', tr, url]"
    and "render_product (snd (init env st out sim w h f cam ann tr url usd)) = Some (cam, w, h)"
    and "annotator (snd (init env st out sim w h f cam ann tr url usd)) = Some ann"
  using assms
  by (auto simp: setup_defs ffmpeg_command_def split: option.splits if_splits)

lemma init_camera_missing:
  assumes "active_stage env sim usd = Some prims" and "cam \<notin> set prims"
  shows "init env st out sim w h f cam ann tr url usd =
           (Some (RuntimeError (''Failed to find camera at path: '' @ cam)),
            snd (init env st out sim w h f cam ann tr url usd))"
    and "proc (snd (init env st out sim w h f cam ann tr url usd)) = None"
  using assms
  by (auto simp: setup_defs active_stage_def split: option.splits if_splits)


lemma init_fresh:
  "proc (snd (init env st out sim w h f cam ann tr url usd)) = None \<or>
   (\<exists>p. proc (snd (init env st out sim w h f cam ann tr url usd)) = Some p \<and>
        \<not> encoder_gone p \<and> stdin_buffer p = [])"
  by (auto simp: setup_defs split: option.splits)




lemma stream_unfold:
  assumes "try_body es s = (Some x, c, s')"
  shows "stream es s =
           finally_cleanup (if x = KeyboardInterrupt then Returned else Raised x)
             (if x = KeyboardInterrupt then print_line LogInterrupt s' else s')"
  using assms by (cases x) (simp_all add: stream_def)

lemma stream_config: "config_of (snd (stream es s)) = config_of s"
proof -
  obtain x c s' where eq: "try_body es s = (x, c, s')"
    by (cases "try_body es s") auto
  then have "loop es 0 (print_line LogStart s) = (x, c, s')"
    by (simp add: try_body_def)
  from loop_frame [OF this] have cfg: "config_of s' = config_of s"
    by (simp add: config_of_def print_line_def)
  show ?thesis
  proof (cases x)
    case None
    with eq cfg show ?thesis by (simp add: stream_def)
  next
    case (Some y)
    define s'' where "s'' = (if y = KeyboardInterrupt then print_line LogInterrupt s' else s')"
    from cfg have cfg'': "config_of s'' = config_of s"
      by (simp add: s''_def config_of_def print_line_def)
    obtain z s3 where cl: "cleanup s'' = (z, s3)"
      by (cases "cleanup s''") auto
    from stream_unfold [of es s y c s'] eq Some cl have "snd (stream es s) = s3"
      by (cases z) (simp_all add: finally_cleanup_def s''_def)
    with cleanup_frame(1) [OF cl] cfg'' show ?thesis by simp
  qed
qed


subsection \<open>The conversion reads the colour bytes only\<close>

lemma swap_rb4_rgb_only:
  assumes len: "length xs = 4 * n" "length ys = 4 * n"
    and rgb: "\<And>i k. i < n \<Longrightarrow> k < 3 \<Longrightarrow> xs ! (4 * i + k) = ys ! (4 * i + k)"
  shows "swap_rb4 xs = swap_rb4 ys"
proof (rule nth_equalityI)
  show "length (swap_rb4 xs) = length (swap_rb4 ys)"
    using len by (simp add: length_swap_rb4)
next
  fix j
  assume "j < length (swap_rb4 xs)"
  with len have j: "j < 3 * n" by (simp add: length_swap_rb4)
  define i where "i = j div 3"
  from j have i: "i < n" by (simp add: i_def)
  then have ix: "i < length xs div 4" and iy: "i < length ys div 4"
    using len by simp_all
  have "j = 3 * i \<or> j = 3 * i + 1 \<or> j = 3 * i + 2"
    unfolding i_def by arith
  then consider "j = 3 * i" | "j = 3 * i + 1" | "j = 3 * i + 2" by blast
  then show "swap_rb4 xs ! j = swap_rb4 ys ! j"
  proof cases
    case 1
    with swap_rb4_nth [OF ix] swap_rb4_nth [OF iy] rgb [OF i, of 2] show ?thesis by simp
  next
    case 2
    with swap_rb4_nth [OF ix] swap_rb4_nth [OF iy] rgb [OF i, of 1] show ?thesis by simp
  next
    case 3
    with swap_rb4_nth [OF ix] swap_rb4_nth [OF iy] rgb [OF i, of 0] show ?thesis by simp
  qed
qed

lemma bgr_bytes_rgba:
  assumes "channels (data e) = 4" and "rows (data e) \<noteq> 0" and "cols (data e) \<noteq> 0"
    and "length (buf (data e)) = rows (data e) * cols (data e) * 4"
  shows "bgr_bytes e = swap_rb4 (buf (data e))"
  using assms by (simp add: bgr_bytes_def cvtColor_RGBA2BGR_def tobytes_def)

subsection \<open>Where a failed write leaves the writer\<close>

text \<open>
  A frame that fits the buffer is only copied by \<open>write\<close>, so it is the flush that fails and
  the frame stays buffered: closing the writer then fails again. A frame larger than the
  buffer fails in \<open>write\<close> itself with nothing buffered, and the writer closes quietly.
\<close>

lemma failed_write_small_frame:
  assumes "\<not> stdin_closed p" and "stdin_buffer p = []" and "bs \<noteq> []"
    and "int (length bs) \<le> buffer_size p"
  shows "\<exists>p'. write_frame True bs p = (Some BrokenPipeError, p') \<and>
           fst (stdin_close p') = Some BrokenPipeError"
  using assms by (auto simp: writer_defs)

lemma failed_write_large_frame:
  assumes "\<not> stdin_closed p" and "stdin_buffer p = []" and "buffer_size p < int (length bs)"
  shows "\<exists>p'. write_frame True bs p = (Some BrokenPipeError, p') \<and> fst (stdin_close p') = None"
  using assms by (auto simp: writer_defs)

section \<open>The claims\<close>



text \<open>
  C6. With \<open>n\<close> the value of \<open>frame_count\<close> the \<open>try\<close> block has reached, the
  throughput lines printed so far are those for the multiples of 100 in \<open>1..n\<close>, in order,
  so there are exactly \<open>n div 100\<close> of them; and \<open>n\<close> is the number of iterations when
  none has raised.
\<close>

theorem throughput_report_every_100_frames:
  "reports (snd (snd (try_body es s))) =
     reports s @ map LogProcessed (filter (\<lambda>k. k mod 100 = 0) [1..fst (snd (try_body es s))]) \<and>
   length (reports (snd (snd (try_body es s)))) =
     length (reports s) + nat (fst (snd (try_body es s))) div 100 \<and>
   (fst (try_body es s) = None \<longrightarrow> fst (snd (try_body es s)) = int (length es))"
proof -
  obtain x n s' where eq: "loop es 0 (print_line LogStart s) = (x, n, s')"
    by (cases "loop es 0 (print_line LogStart s)") auto
  have start: "reports (print_line LogStart s) = reports s"
    by (simp add: reports_def print_line_def)
  from loop_reports [OF eq] start
  have n: "0 \<le> n"
    and rep: "reports s' = reports s @ map LogProcessed (filter (\<lambda>k. k mod 100 = 0) [1..n])"
    by auto
  from n have "n = int (nat n)" by simp
  then have "length (filter (\<lambda>k. k mod 100 = 0) [1..n]) = nat n div 100"
    using count_multiples [of "nat n"] by simp
  with rep have len: "length (reports s') = length (reports s) + nat n div 100"
    by simp
  have "n = int (length es)" if "x = None"
    using loop_ok [of es 0 "print_line LogStart s" n s'] eq that by simp
  with rep len eq show ?thesis
    by (simp add: try_body_def)
qed

theorem throughput_report_every_100_frames_witness:
  "fst (try_body (replicate 100 good_iter) demo_stream) = None \<and>
   fst (snd (try_body (replicate 100 good_iter) demo_stream)) = 100 \<and>
   reports (snd (snd (try_body (replicate 100 good_iter) demo_stream))) = [LogProcessed 100]"
proof -
  have run: "fst (try_body (replicate 100 good_iter) demo_stream) = None"
    by code_simp
  have before: "reports demo_stream = []"
    by code_simp
  note t = throughput_report_every_100_frames [of "replicate 100 good_iter" demo_stream]
  from t run have n: "fst (snd (try_body (replicate 100 good_iter) demo_stream)) = 100"
    by simp
  have "filter (\<lambda>k. k mod 100 = 0) [1..100::int] = [100]"
    by code_simp
  with t n before run show ?thesis by simp
qed

text \<open>
  C8. The seven configuration attributes are those the constructor was given, and neither
  the loop, nor cleanup, nor \<open>stream\<close> as a whole changes any of them.
\<close>

theorem configuration_never_mutated:
  "config_of (snd (init env st out sim w h f cam ann tr url usd)) = (w, h, f, cam, ann, tr, url) \<and>
   config_of (snd (snd (loop es c s))) = config_of s \<and>
   config_of (snd (cleanup s)) = config_of s \<and>
   config_of (snd (stream es s)) = config_of s"
proof -
  have "config_of (snd (snd (loop es c s))) = config_of s"
    using loop_frame [of es c s] by (cases "loop es c s") auto
  moreover have "config_of (snd (cleanup s)) = config_of s"
    using cleanup_frame(1) [of s] by (cases "cleanup s") auto
  ultimately show ?thesis
    by (simp add: init_config stream_config)
qed

text \<open>
  C9. When setup succeeds, the encoder has been launched with the fixed FFmpeg command line
  in which the raw-video input on standard input has the one pixel format \<open>bgr24\<close>,
  the size flag is the configured width and height, the rate flag the configured frame
  rate, the RTSP transport the configured transport and the last argument the configured
  URL; and the render product is bound to the same width and height.
\<close>

theorem encoder_command_reflects_configuration:
  "fst (init env st out sim w h f cam ann tr url usd) = None \<Longrightarrow>
     map_option args (proc (snd (init env st out sim w h f cam ann tr url usd))) =
       Some [''ffmpeg'', ''-y'', ''-f'', ''rawvideo'', ''-vcodec'', ''rawvideo'',
             ''-pix_fmt'', ''bgr24'', ''-s'', str_int w @ ''x'' @ str_int h,
             ''-r'', str_int f, ''-i'', ''-'', ''-an'', ''-c:v'', ''h264_nvenc'',
             ''-preset'', ''fast'', ''-f'', ''rtsp'', ''-rtsp_transport'', tr, url] \<and>
     render_product (snd (init env st out sim w h f cam ann tr url usd)) = Some (cam, w, h)"
proof -
  assume ok: "fst (init env st out sim w h f cam ann tr url usd) = None"
  show ?thesis
    by (rule conjI [OF init_ok(1) [OF ok] init_ok(2) [OF ok]])
qed

theorem encoder_command_reflects_configuration_witness:
  "fst (demo_init ''/World/cam'' ''rgb'') = None \<and>
   map_option args (proc (snd (demo_init ''/World/cam'' ''rgb''))) =
     Some [''ffmpeg'', ''-y'', ''-f'', ''rawvideo'', ''-vcodec'', ''rawvideo'',
           ''-pix_fmt'', ''bgr24'', ''-s'', ''2x1'', ''-r'', ''60'', ''-i'', ''-'', ''-an'',
           ''-c:v'', ''h264_nvenc'', ''-preset'', ''fast'', ''-f'', ''rtsp'',
           ''-rtsp_transport'', ''tcp'', ''rtsp://mediamtx:8554/stream''] \<and>
   render_product (snd (demo_init ''/World/cam'' ''rgb'')) = Some (''/World/cam'', 2, 1)"
proof -
  have ok: "fst (init demo_env 0 [] demo_sim 2 1 60 ''/World/cam'' ''rgb'' ''tcp''
              ''rtsp://mediamtx:8554/stream'' None) = None"
    by code_simp
  have digits: "str_int 2 @ ''x'' @ str_int 1 = ''2x1''" "str_int 60 = ''60''"
    by code_simp+
  from encoder_command_reflects_configuration [OF ok] ok digits show ?thesis
    by (simp add: demo_init_def)
qed

text \<open>
  C4. When the stage the simulator reports has no prim at the configured camera path, the
  constructor raises the camera-not-found error (a \<open>RuntimeError\<close> with the message
  ``Failed to find camera at path''), and no encoder process has been launched.
\<close>

theorem missing_camera_fails_before_encoder_launch:
  "active_stage env sim usd = Some prims \<Longrightarrow> cam \<notin> set prims \<Longrightarrow>
     fst (init env st out sim w h f cam ann tr url usd) =
       Some (RuntimeError (''Failed to find camera at path: '' @ cam)) \<and>
     proc (snd (init env st out sim w h f cam ann tr url usd)) = None"
  using init_camera_missing [of env sim usd prims cam st out w h f ann tr url]
  by (metis fst_conv)

theorem missing_camera_fails_before_encoder_launch_witness:
  "active_stage demo_env demo_sim None = Some [''/World/cam''] \<and>
   ''/World/nocam'' \<notin> set [''/World/cam''] \<and>
   fst (demo_init ''/World/nocam'' ''rgb'') =
     Some (RuntimeError ''Failed to find camera at path: /World/nocam'') \<and>
   proc (snd (demo_init ''/World/nocam'' ''rgb'')) = None"
proof -
  have st: "active_stage demo_env demo_sim None = Some [''/World/cam'']"
    by code_simp
  have cam: "''/World/nocam'' \<notin> set [''/World/cam'']"
    by simp
  from missing_camera_fails_before_encoder_launch [OF st cam] st cam show ?thesis
    by (simp add: demo_init_def)
qed



text \<open>
  C5 asks that cleanup still completes after a failed write. On the code it does not when
  the frame fits the writer's buffer. Here the encoder is gone when the second 6-byte frame
  is written: the flush raises \<open>BrokenPipeError\<close>, the \<open>finally\<close> clause runs
  cleanup, \<open>self.proc.stdin.close()\<close> raises \<open>BrokenPipeError\<close> again, and
  \<open>stream\<close> raises to its caller with the process not waited for, the simulator not
  closed and only the first cleanup line printed.
\<close>

theorem write_failure_aborts_cleanup:
  "fst (stream [good_iter, broken_pipe_iter] demo_stream) = Some (Raised BrokenPipeError) \<and>
   map_option reaped (proc (snd (stream [good_iter, broken_pipe_iter] demo_stream))) = Some False \<and>
   \<not> encoder_released (snd (stream [good_iter, broken_pipe_iter] demo_stream)) \<and>
   close_calls (simulator (snd (stream [good_iter, broken_pipe_iter] demo_stream))) =
     close_calls (simulator demo_stream) \<and>
   stdout (snd (stream [good_iter, broken_pipe_iter] demo_stream)) =
     [LogStart, LogStepTook, LogFrameTook, LogStepTook, LogCleanupStopping]"
  by code_simp

text \<open>
  C2 asks that cleanup runs before a setup-time error reaches the caller. On the code it
  does not: when the registry does not know the annotator, the constructor raises after the
  encoder has been launched, and at that moment the encoder's input is open, the process
  has not been waited for, the simulator has not been closed and no cleanup line has been
  printed.
\<close>

theorem setup_failure_leaves_encoder_running:
  "fst (demo_init ''/World/cam'' ''depth'') = Some AnnotatorRegistryError \<and>
   map_option stdin_closed (proc (snd (demo_init ''/World/cam'' ''depth''))) = Some False \<and>
   map_option reaped (proc (snd (demo_init ''/World/cam'' ''depth''))) = Some False \<and>
   \<not> encoder_released (snd (demo_init ''/World/cam'' ''depth'')) \<and>
   close_calls (simulator (snd (demo_init ''/World/cam'' ''depth''))) = close_calls demo_sim \<and>
   stdout (snd (demo_init ''/World/cam'' ''depth'')) = []"
  by code_simp

text \<open>
  C3, as stated, fails: two calls of cleanup, neither raising, invoke the simulator's
  \<open>close()\<close> twice.
\<close>

theorem cleanup_twice_closes_simulator_twice_counterexample:
  "close_calls (simulator demo_stream) = 0 \<and>
   fst (cleanup demo_stream) = None \<and>
   close_calls (simulator (snd (cleanup demo_stream))) = 1 \<and>
   fst (cleanup (snd (cleanup demo_stream))) = None \<and>
   close_calls (simulator (snd (cleanup (snd (cleanup demo_stream))))) = 2"
  by code_simp

text \<open>
  C3, amended. In every state the constructor leaves, whether setup was completed or failed
  part-way, cleanup raises nothing. Whenever a call of cleanup has returned without raising,
  the encoder (if one was launched) is closed and waited for, an encoder that was never
  launched has been skipped, and a second call returns without raising and leaves the
  encoder as the first call left it (closing a closed input and waiting for a process
  already waited for do nothing); the simulator's \<open>close()\<close> is invoked once by each of
  the two calls.
\<close>

theorem cleanup_twice:
  "fst (cleanup (snd (init env st out sim w h f cam ann tr url usd))) = None \<and>
   (fst (cleanup s) = None \<longrightarrow>
      fst (cleanup (snd (cleanup s))) = None \<and>
      proc (snd (cleanup (snd (cleanup s)))) = proc (snd (cleanup s)) \<and>
      encoder_released (snd (cleanup s)) \<and>
      (proc s = None \<longrightarrow> proc (snd (cleanup s)) = None) \<and>
      close_calls (simulator (snd (cleanup (snd (cleanup s))))) = close_calls (simulator s) + 2)"
proof -
  have after_setup: "fst (cleanup (snd (init env st out sim w h f cam ann tr url usd))) = None"
    using init_fresh [of env st out sim w h f cam ann tr url usd]
    by (intro cleanup_completes) auto
  have twice: "fst (cleanup (snd (cleanup s))) = None \<and>
      proc (snd (cleanup (snd (cleanup s)))) = proc (snd (cleanup s)) \<and>
      encoder_released (snd (cleanup s)) \<and>
      (proc s = None \<longrightarrow> proc (snd (cleanup s)) = None) \<and>
      close_calls (simulator (snd (cleanup (snd (cleanup s))))) = close_calls (simulator s) + 2"
    if first: "fst (cleanup s) = None"
  proof -
    obtain s1 where eq: "cleanup s = (None, s1)"
      using first by (cases "cleanup s") auto
    from cleanup_again [OF eq] cleanup_ok(1,2) [OF eq] cleanup_frame(5) [OF eq] eq
    show ?thesis by (simp add: sim_close_def)
  qed
  from after_setup twice show ?thesis by blast
qed

theorem cleanup_twice_witness:
  "fst (cleanup demo_stream) = None \<and>
   encoder_released (snd (cleanup demo_stream)) \<and>
   proc (snd (cleanup (snd (cleanup demo_stream)))) = proc (snd (cleanup demo_stream)) \<and>
   fst (cleanup (snd (demo_init ''/World/nocam'' ''rgb''))) = None \<and>
   proc (snd (demo_init ''/World/nocam'' ''rgb'')) = None \<and>
   proc (snd (cleanup (snd (demo_init ''/World/nocam'' ''rgb'')))) = None \<and>
   close_calls (simulator (snd (cleanup (snd (cleanup (snd (demo_init ''/World/nocam'' ''rgb''))))))) = 2"
proof -
  have launched: "fst (cleanup demo_stream) = None"
    by code_simp
  have never: "fst (cleanup (snd (demo_init ''/World/nocam'' ''rgb''))) = None"
    "proc (snd (demo_init ''/World/nocam'' ''rgb'')) = None"
    "close_calls (simulator (snd (demo_init ''/World/nocam'' ''rgb''))) = 0"
    by code_simp+
  from cleanup_twice [of _ _ _ _ _ _ _ _ _ _ _ _ demo_stream]
    cleanup_twice [of _ _ _ _ _ _ _ _ _ _ _ _ "snd (demo_init ''/World/nocam'' ''rgb'')"]
    launched never
  show ?thesis by simp
qed

text \<open>
  C10. For an iteration that completes on an array of \<open>rows \<times> cols\<close> RGBA pixels, the
  chunk written to the encoder holds \<open>rows * cols\<close> pixels of three bytes each, pixel
  \<open>i\<close> being the blue, green and red byte of pixel \<open>i\<close> of the array in that order;
  the alpha bytes are not written, and two arrays of the same shape that differ only in
  their alpha bytes give the same chunk.
\<close>

theorem conversion_discards_alpha:
  "fst (iteration e c s) = None \<Longrightarrow> channels (data e) = 4 \<Longrightarrow>
   length (buf (data e)) = rows (data e) * cols (data e) * 4 \<Longrightarrow>
     frames_written (snd (snd (iteration e c s))) = frames_written s @ [bgr_bytes e] \<and>
     length (bgr_bytes e) = rows (data e) * cols (data e) * 3 \<and>
     (\<forall>i < rows (data e) * cols (data e).
        bgr_bytes e ! (3 * i) = buf (data e) ! (4 * i + 2) \<and>
        bgr_bytes e ! (3 * i + 1) = buf (data e) ! (4 * i + 1) \<and>
        bgr_bytes e ! (3 * i + 2) = buf (data e) ! (4 * i)) \<and>
     (\<forall>e'. channels (data e') = 4 \<and> rows (data e') = rows (data e) \<and> cols (data e') = cols (data e) \<and>
           length (buf (data e')) = rows (data e) * cols (data e) * 4 \<and>
           (\<forall>i < rows (data e) * cols (data e). \<forall>k < 3.
              buf (data e') ! (4 * i + k) = buf (data e) ! (4 * i + k)) \<longrightarrow>
           bgr_bytes e' = bgr_bytes e)"
proof -
  let ?a = "data e" and ?n = "rows (data e) * cols (data e)"
  assume run: "fst (iteration e c s) = None" and ch: "channels ?a = 4"
    and len: "length (buf ?a) = ?n * 4"
  obtain c' s' where eq: "iteration e c s = (None, c', s')"
    using run by (cases "iteration e c s") auto
  from iteration_ok(3) [OF eq] have nonempty: "rows ?a \<noteq> 0" "cols ?a \<noteq> 0"
    by (auto simp: cvtColor_RGBA2BGR_def split: if_splits)
  with ch len have out: "bgr_bytes e = swap_rb4 (buf ?a)"
    by (intro bgr_bytes_rgba)
  have written: "frames_written (snd (snd (iteration e c s))) = frames_written s @ [bgr_bytes e]"
    using frames_written_iteration [OF eq] eq by simp
  have size: "length (bgr_bytes e) = ?n * 3"
    using out len by (simp add: length_swap_rb4)
  have pixel: "bgr_bytes e ! (3 * i) = buf ?a ! (4 * i + 2) \<and>
      bgr_bytes e ! (3 * i + 1) = buf ?a ! (4 * i + 1) \<and>
      bgr_bytes e ! (3 * i + 2) = buf ?a ! (4 * i)" if "i < ?n" for i
    using that len swap_rb4_nth [of i "buf ?a"] by (simp add: out)
  have same: "bgr_bytes e' = bgr_bytes e"
    if e': "channels (data e') = 4" "rows (data e') = rows ?a" "cols (data e') = cols ?a"
      "length (buf (data e')) = ?n * 4"
      "\<forall>i < ?n. \<forall>k < 3. buf (data e') ! (4 * i + k) = buf ?a ! (4 * i + k)" for e'
  proof -
    from e' nonempty have "bgr_bytes e' = swap_rb4 (buf (data e'))"
      by (intro bgr_bytes_rgba) simp_all
    moreover have "swap_rb4 (buf (data e')) = swap_rb4 (buf ?a)"
      using e'(4,5) len by (intro swap_rb4_rgb_only [of _ ?n]) (simp_all add: mult.commute)
    ultimately show ?thesis using out by simp
  qed
  from written size pixel same show ?thesis by blast
qed

theorem conversion_discards_alpha_witness:
  "fst (iteration good_iter 0 demo_stream) = None \<and> channels (data good_iter) = 4 \<and>
   length (buf (data good_iter)) = rows (data good_iter) * cols (data good_iter) * 4 \<and>
   buf (data good_iter) = [10, 20, 30, 255, 40, 50, 60, 255] \<and>
   frames_written (snd (snd (iteration good_iter 0 demo_stream))) = [[30, 20, 10, 60, 50, 40]]"
proof -
  have h: "fst (iteration good_iter 0 demo_stream) = None" "channels (data good_iter) = 4"
    "length (buf (data good_iter)) = rows (data good_iter) * cols (data good_iter) * 4"
    by code_simp+
  have v: "buf (data good_iter) = [10, 20, 30, 255, 40, 50, 60, 255]"
    "frames_written demo_stream = []" "bgr_bytes good_iter = [30, 20, 10, 60, 50, 40]"
    by code_simp+
  from conversion_discards_alpha [OF h] h v show ?thesis by simp
qed

end
